theory Spec2Isabelle
  imports Main "HOL-Library.Sublist" "HOL-Library.AList"
begin

section \<open>The streaming relay of \<^verbatim>\<open>src/prep/4_prep.py\<close>\<close>

text \<open>
  The repository's only logic is the asynchronous generator \<^verbatim>\<open>event_stream\<close> inside the
  route \<^verbatim>\<open>/ai\<close>: it opens a streaming POST request to a local generation service,
  reads the response line by line, decodes each line as JSON and yields server-sent events.
  (\<^verbatim>\<open>src/fastapi_intro.py\<close> and the route \<^verbatim>\<open>/\<close> return fixed pages.)

  The generator is embedded as a function from its environment to the sequence of actions
  it performs and the way it exits. The environment is what the upstream service does
  (refuses the connection, or answers with a status code and a body of lines that ends
  cleanly or with a transport error) and how long the consumer of the generator keeps
  iterating it. The library calls the generator makes (\<^verbatim>\<open>str.strip\<close>,
  \<^verbatim>\<open>json.loads\<close>, \<^verbatim>\<open>dict.get\<close>, truth testing) are modelled by
  executable functions of their documented behaviour.
\<close>

subsection \<open>Python strings\<close>

text \<open>
  A Python \<^verbatim>\<open>str\<close> is a sequence of Unicode code points. \<open>str\<close> turns a literal of
  this theory into one, \<open>ord\<close> is Python's \<^verbatim>\<open>ord\<close>.
\<close>

type_synonym pystr = "nat list"

definition ord :: "char \<Rightarrow> nat" where
  "ord c = of_char c"

definition str :: "string \<Rightarrow> pystr" where
  "str s = map ord s"

text \<open>
  \<^verbatim>\<open>str.isspace\<close> for one code point: the characters CPython's
  \<^verbatim>\<open>Py_UNICODE_ISSPACE\<close> accepts. \<^verbatim>\<open>line.strip()\<close> removes them from both ends.
\<close>

definition isspace :: "nat \<Rightarrow> bool" where
  "isspace c \<longleftrightarrow>
     (0x09 \<le> c \<and> c \<le> 0x0D) \<or> (0x1C \<le> c \<and> c \<le> 0x20) \<or> c = 0x85 \<or> c = 0xA0 \<or>
     c = 0x1680 \<or> (0x2000 \<le> c \<and> c \<le> 0x200A) \<or> c = 0x2028 \<or> c = 0x2029 \<or>
     c = 0x202F \<or> c = 0x205F \<or> c = 0x3000"

definition strip :: "pystr \<Rightarrow> pystr" where
  "strip s = rev (dropWhile isspace (rev (dropWhile isspace s)))"

text \<open>\<^verbatim>\<open>str(i)\<close> for an integer, as the f-string of the status event formats it.\<close>

fun decimal :: "nat \<Rightarrow> pystr" where
  "decimal n =
     (if n < 10 then [ord CHR ''0'' + n] else decimal (n div 10) @ [ord CHR ''0'' + n mod 10])"

declare decimal.simps [simp del]

definition str_int :: "int \<Rightarrow> pystr" where
  "str_int i = (if i < 0 then str ''-'' @ decimal (nat (- i)) else decimal (nat i))"

subsection \<open>Python values and \<^verbatim>\<open>json.loads\<close>\<close>

text \<open>
  The values \<^verbatim>\<open>json.loads\<close> returns: \<^verbatim>\<open>None\<close>, booleans, integers, floats,
  strings, lists and dictionaries with string keys. A dictionary is an association list
  with distinct keys in insertion order. A float is kept as the decimal number its literal
  denotes, \<open>Dec m e\<close> standing for \<open>m * 10 ^ e\<close>; the only operation the generator applies
  to a number is the truth test, which is exact on this representation (see \<open>truthy\<close>).
\<close>

datatype pyfloat = Dec int int | NaN | Infinity | NegInfinity

datatype pyval =
    PNone
  | PBool bool
  | PInt int
  | PFloat pyfloat
  | PStr pystr
  | PList "pyval list"
  | PDict "(pystr \<times> pyval) list"

text \<open>
  Python's truth test (\<^verbatim>\<open>if data.get("done")\<close>). A float literal is false when the
  double nearest to it is zero: CPython rounds to nearest, ties to even, and the least
  positive double is \<open>2 ^ -1074\<close>, so exactly the literals of magnitude at most
  \<open>2 ^ -1075\<close> read as \<open>0.0\<close>.
\<close>

fun truthy :: "pyval \<Rightarrow> bool" where
  "truthy PNone = False"
| "truthy (PBool b) = b"
| "truthy (PInt i) = (i \<noteq> 0)"
| "truthy (PFloat (Dec m e)) =
     (if 0 \<le> e then m \<noteq> 0 else 10 ^ nat (- e) < \<bar>m\<bar> * 2 ^ 1075)"
| "truthy (PFloat _) = True"
| "truthy (PStr s) = (s \<noteq> [])"
| "truthy (PList vs) = (vs \<noteq> [])"
| "truthy (PDict kvs) = (kvs \<noteq> [])"

text \<open>
  The decoder: a tokenizer and a pushdown recognizer that builds the value. It accepts what
  CPython's \<^verbatim>\<open>json.loads\<close> accepts with its default arguments: JSON with leading and
  trailing blanks, the constants \<^verbatim>\<open>NaN\<close>, \<^verbatim>\<open>Infinity\<close> and \<^verbatim>\<open>-Infinity\<close>, strict
  strings (no raw control characters) with the escapes of \<^verbatim>\<open>scanstring\<close>, surrogate pairs
  joined, and the last value of a repeated key. \<open>None\<close> is the exception
  \<^verbatim>\<open>json.JSONDecodeError\<close>. The limits a running interpreter adds (recursion depth, the
  digit limit on integer literals) are not part of the model.
\<close>

datatype token = LBrace | RBrace | LBracket | RBracket | Colon | Comma | Atom pyval

definition isdigit :: "nat \<Rightarrow> bool" where
  "isdigit c \<longleftrightarrow> ord CHR ''0'' \<le> c \<and> c \<le> ord CHR ''9''"

definition digits_val :: "pystr \<Rightarrow> nat" where
  "digits_val ds = foldl (\<lambda>a d. 10 * a + (d - ord CHR ''0'')) 0 ds"

definition hexval :: "nat \<Rightarrow> nat option" where
  "hexval c =
     (if isdigit c then Some (c - ord CHR ''0'')
      else if ord CHR ''a'' \<le> c \<and> c \<le> ord CHR ''f'' then Some (c - ord CHR ''a'' + 10)
      else if ord CHR ''A'' \<le> c \<and> c \<le> ord CHR ''F'' then Some (c - ord CHR ''A'' + 10)
      else None)"

definition decode_uXXXX :: "pystr \<Rightarrow> nat option" where
  "decode_uXXXX s =
     (case map hexval (take 4 s) of
        [Some a, Some b, Some c, Some d] \<Rightarrow> Some (((a * 16 + b) * 16 + c) * 16 + d)
      | _ \<Rightarrow> None)"

definition backslash :: "nat \<Rightarrow> nat option" where
  "backslash e =
     (if e = ord CHR 0x22 \<or> e = ord CHR 0x5C \<or> e = ord CHR ''/'' then Some e
      else if e = ord CHR ''b'' then Some 0x08
      else if e = ord CHR ''f'' then Some 0x0C
      else if e = ord CHR ''n'' then Some 0x0A
      else if e = ord CHR ''r'' then Some 0x0D
      else if e = ord CHR ''t'' then Some 0x09
      else None)"

definition pushc :: "nat \<Rightarrow> (pystr \<times> pystr) option \<Rightarrow> (pystr \<times> pystr) option" where
  "pushc c r = (case r of None \<Rightarrow> None | Some (s, rest) \<Rightarrow> Some (c # s, rest))"

text \<open>
  \<open>scanstring\<close> reads a string body after its opening quote and returns the decoded
  string and the input after the closing quote.
\<close>

fun scanstring :: "pystr \<Rightarrow> (pystr \<times> pystr) option" where
  "scanstring [] = None"
| "scanstring (c # cs) =
     (if c = ord CHR 0x22 then Some ([], cs)
      else if c = ord CHR 0x5C then
        (case cs of
           [] \<Rightarrow> None
         | e # es \<Rightarrow>
             if e = ord CHR ''u'' then
               (case decode_uXXXX es of
                  None \<Rightarrow> None
                | Some uni \<Rightarrow>
                    if 0xD800 \<le> uni \<and> uni \<le> 0xDBFF \<and>
                       take 2 (drop 4 es) = [ord CHR 0x5C, ord CHR ''u''] then
                      (case decode_uXXXX (drop 6 es) of
                         None \<Rightarrow> None
                       | Some uni2 \<Rightarrow>
                           if 0xDC00 \<le> uni2 \<and> uni2 \<le> 0xDFFF
                           then pushc (0x10000 + (uni - 0xD800) * 0x400 + (uni2 - 0xDC00))
                                  (scanstring (drop 10 es))
                           else pushc uni (scanstring (drop 4 es)))
                    else pushc uni (scanstring (drop 4 es)))
             else
               (case backslash e of
                  None \<Rightarrow> None
                | Some ch \<Rightarrow> pushc ch (scanstring es)))
      else if c < 0x20 then None
      else pushc c (scanstring cs))"

text \<open>
  Numbers, after \<^verbatim>\<open>NUMBER_RE\<close>: an integer part, an optional fraction and an optional
  exponent, each taken only when complete. The literal is an \<^verbatim>\<open>int\<close> when it has
  neither fraction nor exponent, a \<^verbatim>\<open>float\<close> otherwise.
\<close>

definition int_part :: "pystr \<Rightarrow> pystr" where
  "int_part s = (if take 1 s = str ''0'' then take 1 s else takeWhile isdigit s)"

definition frac_part :: "pystr \<Rightarrow> pystr" where
  "frac_part s = (if take 1 s = str ''.'' then takeWhile isdigit (drop 1 s) else [])"

definition exp_part :: "pystr \<Rightarrow> (int \<times> nat) option" where
  "exp_part s =
     (if take 1 s = str ''e'' \<or> take 1 s = str ''E'' then
        (let t = drop 1 s;
             sg = (if take 1 t = str ''-'' \<or> take 1 t = str ''+'' then 1 else 0);
             ds = takeWhile isdigit (drop sg t);
             x = int (digits_val ds)
         in if ds = [] then None
            else Some (if take 1 t = str ''-'' then - x else x, 1 + sg + length ds))
      else None)"

definition match_number :: "pystr \<Rightarrow> (pyval \<times> pystr) option" where
  "match_number s =
     (let sg = (if take 1 s = str ''-'' then 1 else 0);
          ip = int_part (drop sg s);
          n1 = sg + length ip;
          fp = frac_part (drop n1 s);
          n2 = n1 + (if fp = [] then 0 else 1 + length fp);
          ex = exp_part (drop n2 s);
          n3 = n2 + (case ex of None \<Rightarrow> 0 | Some (_, k) \<Rightarrow> k);
          m = (if sg = 1 then - 1 else 1) * int (digits_val (ip @ fp))
      in if ip = [] then None
         else if fp = [] \<and> ex = None then Some (PInt m, drop n3 s)
         else Some (PFloat (Dec m ((case ex of None \<Rightarrow> 0 | Some (x, _) \<Rightarrow> x) - int (length fp))),
                    drop n3 s))"

definition literal :: "string \<Rightarrow> pyval \<Rightarrow> pystr \<Rightarrow> (token \<times> pystr) option" where
  "literal w v s = (if take (length w) s = str w then Some (Atom v, drop (length w) s) else None)"

definition orelse :: "'a option \<Rightarrow> 'a option \<Rightarrow> 'a option" where
  "orelse a b = (case a of None \<Rightarrow> b | Some x \<Rightarrow> Some x)"

definition scalar :: "pystr \<Rightarrow> (token \<times> pystr) option" where
  "scalar s =
     orelse (literal ''null'' PNone s)
    (orelse (literal ''true'' (PBool True) s)
    (orelse (literal ''false'' (PBool False) s)
    (orelse (map_option (\<lambda>(v, rest). (Atom v, rest)) (match_number s))
    (orelse (literal ''NaN'' (PFloat NaN) s)
    (orelse (literal ''Infinity'' (PFloat Infinity) s)
            (literal ''-Infinity'' (PFloat NegInfinity) s))))))"

definition next_token :: "pystr \<Rightarrow> (token \<times> pystr) option" where
  "next_token s =
     (case s of
        [] \<Rightarrow> None
      | c # cs \<Rightarrow>
          if c = ord CHR 0x22 then map_option (\<lambda>(k, rest). (Atom (PStr k), rest)) (scanstring cs)
          else if c = ord CHR ''{'' then Some (LBrace, cs)
          else if c = ord CHR ''}'' then Some (RBrace, cs)
          else if c = ord CHR ''['' then Some (LBracket, cs)
          else if c = ord CHR '']'' then Some (RBracket, cs)
          else if c = ord CHR '':'' then Some (Colon, cs)
          else if c = ord CHR '','' then Some (Comma, cs)
          else scalar s)"

definition json_ws :: "nat \<Rightarrow> bool" where
  "json_ws c \<longleftrightarrow> c = 0x20 \<or> c = 0x09 \<or> c = 0x0A \<or> c = 0x0D"

text \<open>Every token consumes input, so the tokenizer terminates.\<close>

lemma pushc_Some:
  "pushc c r = Some (k, rest) \<longleftrightarrow> (\<exists>k'. r = Some (k', rest) \<and> k = c # k')"
  by (auto simp: pushc_def split: option.splits)

lemma scanstring_shorter: "scanstring s = Some (k, rest) \<Longrightarrow> length rest < Suc (length s)"
proof (induction s arbitrary: k rest rule: scanstring.induct)
  case 1
  then show ?case by simp
next
  case (2 c cs)
  show ?case
    using "2.prems" "2.IH"
    by (fastforce simp: pushc_Some split: if_splits list.splits option.splits)
qed

lemma int_part_Nil: "int_part [] = []"
  by (simp add: int_part_def)

lemma match_number_shorter:
  assumes "match_number s = Some (v, rest)"
  shows "length rest < length s"
proof -
  let ?sg = "if take 1 s = str ''-'' then 1 else (0::nat)"
  from assms obtain n where rest: "rest = drop n s"
    and ip: "int_part (drop ?sg s) \<noteq> []"
    and n: "length (int_part (drop ?sg s)) \<le> n"
    by (auto simp: match_number_def Let_def split: if_splits)
  from ip have "s \<noteq> []" by (auto simp: int_part_Nil)
  moreover from ip n have "0 < n" by (cases n) auto
  ultimately show ?thesis by (simp add: rest)
qed

lemma literal_shorter:
  "literal w v s = Some (t, rest) \<Longrightarrow> w \<noteq> [] \<Longrightarrow> length rest < length s"
  by (cases s) (auto simp: literal_def str_def split: if_splits)

lemma orelse_Some: "orelse a b = Some x \<Longrightarrow> a = Some x \<or> b = Some x"
  by (auto simp: orelse_def split: option.splits)

lemma scalar_shorter: "scalar s = Some (t, rest) \<Longrightarrow> length rest < length s"
  unfolding scalar_def
  by (auto dest!: orelse_Some dest: literal_shorter match_number_shorter)

lemma next_token_shorter: "next_token s = Some (t, rest) \<Longrightarrow> length rest < length s"
  by (cases s)
     (auto simp: next_token_def split: if_splits dest: scanstring_shorter scalar_shorter)

function lex :: "pystr \<Rightarrow> token list option" where
  "lex s =
     (case dropWhile json_ws s of
        [] \<Rightarrow> Some []
      | c # cs \<Rightarrow>
          (case next_token (c # cs) of
             None \<Rightarrow> None
           | Some (t, rest) \<Rightarrow> map_option ((#) t) (lex rest)))"
  by pat_completeness auto
termination
proof (relation "measure length")
  show "wf (measure length)" by simp
next
  fix s c cs x t rest
  assume "dropWhile json_ws s = c # cs" "next_token (c # cs) = Some x" "(t, rest) = x"
  then have "length rest < length (dropWhile json_ws s)"
    using next_token_shorter [of "c # cs" t rest] by simp
  also have "\<dots> \<le> length s" by (rule length_dropWhile_le)
  finally show "(rest, s) \<in> measure length" by simp
qed

declare lex.simps [simp del]

text \<open>
  The recognizer keeps a stack of the containers that are open. The frame on top says what
  may come next: the first element of an array or its end (\<open>AStart\<close>), an element after a
  comma (\<open>AValue\<close>), a comma or the end (\<open>ANext\<close>), and the same for objects, whose keys
  are strings followed by a colon. With an empty stack the document's value is expected.
  \<open>AList.update\<close> stores a member as a Python \<^verbatim>\<open>dict\<close> does: a repeated key keeps its
  place and takes the new value.
\<close>

datatype frame =
    AStart
  | AValue "pyval list"
  | ANext "pyval list"
  | OStart
  | OKey "(pystr \<times> pyval) list"
  | OColon "(pystr \<times> pyval) list" pystr
  | OValue "(pystr \<times> pyval) list" pystr
  | ONext "(pystr \<times> pyval) list"

datatype pstate = Parsing "frame list" | Done pyval

fun put_value :: "pyval \<Rightarrow> frame list \<Rightarrow> pstate option" where
  "put_value v [] = Some (Done v)"
| "put_value v (AStart # fs) = Some (Parsing (ANext [v] # fs))"
| "put_value v (AValue vs # fs) = Some (Parsing (ANext (vs @ [v]) # fs))"
| "put_value v (OValue kvs k # fs) = Some (Parsing (ONext (AList.update k v kvs) # fs))"
| "put_value v _ = None"

fun expects_value :: "frame list \<Rightarrow> bool" where
  "expects_value [] = True"
| "expects_value (AStart # fs) = True"
| "expects_value (AValue vs # fs) = True"
| "expects_value (OValue kvs k # fs) = True"
| "expects_value _ = False"

fun step :: "frame list \<Rightarrow> token \<Rightarrow> pstate option" where
  "step (OStart # fs) (Atom (PStr k)) = Some (Parsing (OColon [] k # fs))"
| "step (OKey kvs # fs) (Atom (PStr k)) = Some (Parsing (OColon kvs k # fs))"
| "step fs (Atom v) = put_value v fs"
| "step fs LBracket = (if expects_value fs then Some (Parsing (AStart # fs)) else None)"
| "step fs LBrace = (if expects_value fs then Some (Parsing (OStart # fs)) else None)"
| "step (AStart # fs) RBracket = put_value (PList []) fs"
| "step (ANext vs # fs) RBracket = put_value (PList vs) fs"
| "step (OStart # fs) RBrace = put_value (PDict []) fs"
| "step (ONext kvs # fs) RBrace = put_value (PDict kvs) fs"
| "step (ANext vs # fs) Comma = Some (Parsing (AValue vs # fs))"
| "step (ONext kvs # fs) Comma = Some (Parsing (OKey kvs # fs))"
| "step (OColon kvs k # fs) Colon = Some (Parsing (OValue kvs k # fs))"
| "step _ _ = None"

fun parse :: "pstate \<Rightarrow> token list \<Rightarrow> pyval option" where
  "parse (Done v) [] = Some v"
| "parse (Parsing fs) (t # ts) = (case step fs t of None \<Rightarrow> None | Some st \<Rightarrow> parse st ts)"
| "parse _ _ = None"

definition json_loads :: "pystr \<Rightarrow> pyval option" where
  "json_loads s = (case lex s of None \<Rightarrow> None | Some ts \<Rightarrow> parse (Parsing []) ts)"

subsection \<open>The generator's actions, exceptions and environment\<close>

text \<open>
  An event is the dictionary the generator yields, \<^verbatim>\<open>{"event": ..., "data": ...}\<close>.
  A request is what \<^verbatim>\<open>client.stream\<close> is called with.
\<close>

record outbound_event =
  event :: pystr
  data :: pyval

record request =
  verb :: pystr
  url :: pystr
  json :: pyval

text \<open>
  What a session does, in order: entering and leaving the two \<^verbatim>\<open>async with\<close> blocks
  (the client and the streamed response), yielding an event, sleeping (milliseconds) and
  printing. A printed line is kept as its format and argument.
\<close>

datatype printed = Status_Code int | Chunk pyval | Could_not_decode pystr

datatype action =
    AsyncClient_enter
  | Stream_enter request
  | Yield outbound_event
  | Sleep nat
  | Print printed
  | Stream_exit
  | AsyncClient_exit

text \<open>
  The exceptions that can travel through the generator: a transport error of
  \<^verbatim>\<open>httpx\<close> (connecting, or reading the body), \<^verbatim>\<open>json.JSONDecodeError\<close>, the
  \<^verbatim>\<open>AttributeError\<close> of calling \<^verbatim>\<open>.get\<close> on a value that is not a dictionary, and
  the cancellation the generator receives at a suspension point when its consumer has
  gone (\<^verbatim>\<open>asyncio.CancelledError\<close> at an \<^verbatim>\<open>await\<close>, \<^verbatim>\<open>GeneratorExit\<close> at a
  \<^verbatim>\<open>yield\<close>).
\<close>

datatype exn = TransportError | JSONDecodeError | AttributeError | Cancelled

datatype body_end = EndOfBody | BodyFails

record response =
  status_code :: int
  lines :: "pystr list"
  ending :: body_end

datatype upstream = Refused | Responds response

text \<open>
  A piece of generator code takes the number of suspension points its consumer will still
  let pass (\<open>None\<close>: the consumer never goes away) and returns the actions performed, the
  number left and either the exception raised (\<open>Inl\<close>) or the value returned (\<open>Inr\<close>).
\<close>

type_synonym 'a gen = "nat option \<Rightarrow> action list \<times> nat option \<times> (exn + 'a)"

definition ret :: "'a \<Rightarrow> 'a gen" where
  "ret x b = ([], b, Inr x)"

definition raise :: "exn \<Rightarrow> 'a gen" where
  "raise e b = ([], b, Inl e)"

definition bind :: "'a gen \<Rightarrow> ('a \<Rightarrow> 'b gen) \<Rightarrow> 'b gen" where
  "bind m f b =
     (case m b of
        (tr, b', Inl e) \<Rightarrow> (tr, b', Inl e)
      | (tr, b', Inr x) \<Rightarrow> (case f x b' of (tr', b'', r) \<Rightarrow> (tr @ tr', b'', r)))"

fun seq :: "unit gen list \<Rightarrow> unit gen" where
  "seq [] = ret ()"
| "seq (m # ms) = bind m (\<lambda>_. seq ms)"

definition emit :: "action \<Rightarrow> unit gen" where
  "emit a b = ([a], b, Inr ())"

definition suspend :: "unit gen" where
  "suspend b =
     (case b of
        None \<Rightarrow> ([], None, Inr ())
      | Some 0 \<Rightarrow> ([], Some 0, Inl Cancelled)
      | Some (Suc n) \<Rightarrow> ([], Some n, Inr ()))"

definition yield :: "outbound_event \<Rightarrow> unit gen" where
  "yield ev = seq [emit (Yield ev), suspend]"

definition sleep :: "nat \<Rightarrow> unit gen" where
  "sleep ms = seq [emit (Sleep ms), suspend]"

definition print :: "printed \<Rightarrow> unit gen" where
  "print p = emit (Print p)"

text \<open>
  Leaving an \<^verbatim>\<open>async with\<close> block runs its exit on every path and lets an exception of
  the body pass. \<^verbatim>\<open>try: ... except E: ...\<close> runs the handler for \<open>E\<close> alone.
\<close>

definition on_exit :: "'a gen \<Rightarrow> action \<Rightarrow> 'a gen" where
  "on_exit m a b = (case m b of (tr, b', r) \<Rightarrow> (tr @ [a], b', r))"

definition try_except :: "'a gen \<Rightarrow> exn \<Rightarrow> 'a gen \<Rightarrow> 'a gen" where
  "try_except m e h b =
     (case m b of
        (tr, b', Inl e') \<Rightarrow>
          if e' = e then (case h b' of (tr', b'', r) \<Rightarrow> (tr @ tr', b'', r))
          else (tr, b', Inl e')
      | (tr, b', Inr x) \<Rightarrow> (tr, b', Inr x))"

definition loads :: "pystr \<Rightarrow> pyval gen" where
  "loads s = (case json_loads s of None \<Rightarrow> raise JSONDecodeError | Some v \<Rightarrow> ret v)"

text \<open>\<^verbatim>\<open>d.get(k, dflt)\<close>: only a dictionary has the method.\<close>

definition get :: "pyval \<Rightarrow> pystr \<Rightarrow> pyval \<Rightarrow> pyval gen" where
  "get d k dflt =
     (case d of
        PDict kvs \<Rightarrow> ret (case map_of kvs k of None \<Rightarrow> dflt | Some v \<Rightarrow> v)
      | _ \<Rightarrow> raise AttributeError)"

subsection \<open>\<^verbatim>\<open>event_stream\<close>\<close>

text \<open>
  \<^verbatim>\<open>async with httpx.AsyncClient() as client\<close>, and
  \<^verbatim>\<open>async with client.stream("POST", url, json={...}) as resp\<close>: entering the second
  sends the request and waits for the response's status line and headers; a connection
  that cannot be made raises there, before the block is entered.
\<close>

definition ollama_request :: request where
  "ollama_request =
     \<lparr>verb = str ''POST'',
      url = str ''http://localhost:11434/api/generate'',
      json = PDict [(str ''model'', PStr (str ''llama3.2'')),
                    (str ''prompt'', PStr (str ''What is the capital of France?'')),
                    (str ''stream'', PBool True)]\<rparr>"

definition AsyncClient :: "'a gen \<Rightarrow> 'a gen" where
  "AsyncClient body = bind (emit AsyncClient_enter) (\<lambda>_. on_exit body AsyncClient_exit)"

definition stream :: "upstream \<Rightarrow> request \<Rightarrow> (response \<Rightarrow> 'a gen) \<Rightarrow> 'a gen" where
  "stream up req body =
     bind (seq [emit (Stream_enter req), suspend]) (\<lambda>_.
       case up of
         Refused \<Rightarrow> raise TransportError
       | Responds resp \<Rightarrow> on_exit (body resp) Stream_exit)"

text \<open>
  The body of \<^verbatim>\<open>async for line in resp.aiter_lines()\<close> (source lines 39 to 52). It
  returns whether the loop goes on or breaks.
\<close>

datatype ctl = Continue | Break

definition loop_body :: "pystr \<Rightarrow> ctl gen" where
  "loop_body line =
     (if strip line = [] then ret Continue
      else
        try_except
          (bind (loads line) (\<lambda>data.
           bind (get data (str ''response'') (PStr [])) (\<lambda>chunk.
           bind (seq [print (Chunk chunk),
                      sleep 300,
                      yield \<lparr>event = str ''message'', data = chunk\<rparr>]) (\<lambda>_.
           bind (get data (str ''done'') PNone) (\<lambda>d.
           if truthy d then ret Break else ret Continue)))))
          JSONDecodeError
          (bind (print (Could_not_decode line)) (\<lambda>_. ret Continue)))"

text \<open>
  The loop: each round awaits the next line, which is a suspension point; the body ends
  the iteration cleanly or with a transport error.
\<close>

fun aiter_lines :: "pystr list \<Rightarrow> body_end \<Rightarrow> unit gen" where
  "aiter_lines [] e =
     bind suspend (\<lambda>_. case e of EndOfBody \<Rightarrow> ret () | BodyFails \<Rightarrow> raise TransportError)"
| "aiter_lines (line # rest) e =
     bind suspend (\<lambda>_.
     bind (loop_body line) (\<lambda>c.
     case c of Break \<Rightarrow> ret () | Continue \<Rightarrow> aiter_lines rest e))"

definition event_stream :: "upstream \<Rightarrow> unit gen" where
  "event_stream up =
     seq [AsyncClient
            (stream up ollama_request (\<lambda>resp.
               seq [yield \<lparr>event = str ''message'', data = PStr (str ''Starting event stream<br>'')\<rparr>,
                    sleep 1000,
                    print (Status_Code (status_code resp)),
                    yield \<lparr>event = str ''status'',
                           data = PStr (str ''HTTP Status Code: '' @ str_int (status_code resp) @
                                        str ''<br>'')\<rparr>,
                    sleep 1000,
                    aiter_lines (lines resp) (ending resp)])),
          yield \<lparr>event = str ''message'', data = PStr (str ''<br> closing stream <br>'')\<rparr>,
          sleep 1000,
          yield \<lparr>event = str ''close'', data = PStr []\<rparr>]"

subsection \<open>Observations of a session\<close>

fun yielded :: "action list \<Rightarrow> outbound_event list" where
  "yielded [] = []"
| "yielded (Yield ev # as) = ev # yielded as"
| "yielded (_ # as) = yielded as"

definition session_events :: "upstream \<Rightarrow> nat option \<Rightarrow> outbound_event list" where
  "session_events up b = yielded (fst (event_stream up b))"

definition outcome :: "upstream \<Rightarrow> nat option \<Rightarrow> exn + unit" where
  "outcome up b = snd (snd (event_stream up b))"

text \<open>The events of the source, by name.\<close>

definition start_event :: outbound_event where
  "start_event = \<lparr>event = str ''message'', data = PStr (str ''Starting event stream<br>'')\<rparr>"

definition status_event :: "int \<Rightarrow> outbound_event" where
  "status_event c =
     \<lparr>event = str ''status'',
      data = PStr (str ''HTTP Status Code: '' @ str_int c @ str ''<br>'')\<rparr>"

definition message_event :: "pyval \<Rightarrow> outbound_event" where
  "message_event chunk = \<lparr>event = str ''message'', data = chunk\<rparr>"

definition closing_event :: outbound_event where
  "closing_event = \<lparr>event = str ''message'', data = PStr (str ''<br> closing stream <br>'')\<rparr>"

definition close_event :: outbound_event where
  "close_event = \<lparr>event = str ''close'', data = PStr []\<rparr>"

text \<open>
  The actions of a session whose upstream answers with status \<open>c\<close> up to the first read
  of the body, and the actions after the two blocks are left.
\<close>

definition head_actions :: "int \<Rightarrow> action list" where
  "head_actions c =
     [AsyncClient_enter, Stream_enter ollama_request, Yield start_event, Sleep 1000,
      Print (Status_Code c), Yield (status_event c), Sleep 1000]"

definition tail_actions :: "action list" where
  "tail_actions = [Yield closing_event, Sleep 1000, Yield close_event]"

text \<open>\<open>is_close\<close>: the event is a \<^verbatim>\<open>close\<close> event.\<close>

definition is_close :: "outbound_event \<Rightarrow> bool" where
  "is_close ev \<longleftrightarrow> event ev = str ''close''"

text \<open>
  \<open>stays n b\<close>: the consumer lets at least \<open>n\<close> suspension points of the generator pass.
\<close>

fun stays :: "nat \<Rightarrow> nat option \<Rightarrow> bool" where
  "stays n None = True"
| "stays n (Some k) = (n \<le> k)"

text \<open>
  What is left of a session once the first read of the body is reached: the loop, leaving
  the two blocks, and the closing statements when the loop ended without an exception.
\<close>

definition after_head :: "response \<Rightarrow> unit gen" where
  "after_head r b =
     (case aiter_lines (lines r) (ending r) b of
        (tr, b', Inl x) \<Rightarrow>
          (head_actions (status_code r) @ tr @ [Stream_exit, AsyncClient_exit], b', Inl x)
      | (tr, b', Inr u) \<Rightarrow>
          (case seq [yield closing_event, sleep 1000, yield close_event] b' of
             (tr', b'', res) \<Rightarrow>
               (head_actions (status_code r) @ tr @ [Stream_exit, AsyncClient_exit] @ tr', b'', res)))"

text \<open>
  \<open>cancel_cuts m\<close>: run with a consumer that never goes away, \<open>m\<close> leaves the consumer
  as it was; run with any consumer, \<open>m\<close> either does and returns exactly the same, or is
  cancelled after yielding a prefix of the same events.
\<close>

definition cancel_cuts :: "'a gen \<Rightarrow> bool" where
  "cancel_cuts m \<longleftrightarrow>
     fst (snd (m None)) = None \<and>
     (\<forall>b. fst (m b) = fst (m None) \<and> snd (snd (m b)) = snd (snd (m None)) \<or>
          snd (snd (m b)) = Inl Cancelled \<and> prefix (yielded (fst (m b))) (yielded (fst (m None))))"

subsection \<open>The vocabulary of the specification\<close>

text \<open>
  The testable properties of the specification count lines. Its words, over the decoder
  above: a line is \<^emph>\<open>valid and non-empty\<close> when it is not blank and decodes; it is an
  \<^emph>\<open>object\<close> when it decodes to a dictionary; it is \<^emph>\<open>done\<close> when it is an object
  whose \<^verbatim>\<open>done\<close> member passes Python's truth test; its \<^emph>\<open>fragment\<close> is its
  \<^verbatim>\<open>response\<close> member, the empty string when it has none. \<open>counted ls\<close> are the
  valid non-empty lines of \<open>ls\<close> up to and including the first that is done.
\<close>

definition spec_valid :: "pystr \<Rightarrow> bool" where
  "spec_valid line \<longleftrightarrow> strip line \<noteq> [] \<and> json_loads line \<noteq> None"

definition spec_object :: "pystr \<Rightarrow> bool" where
  "spec_object line \<longleftrightarrow> (case json_loads line of Some (PDict kvs) \<Rightarrow> True | _ \<Rightarrow> False)"

definition done_line :: "pystr \<Rightarrow> bool" where
  "done_line line \<longleftrightarrow>
     (case json_loads line of
        Some (PDict kvs) \<Rightarrow> truthy (case map_of kvs (str ''done'') of None \<Rightarrow> PNone | Some d \<Rightarrow> d)
      | _ \<Rightarrow> False)"

definition fragment :: "pystr \<Rightarrow> pyval" where
  "fragment line =
     (case json_loads line of
        Some (PDict kvs) \<Rightarrow> (case map_of kvs (str ''response'') of None \<Rightarrow> PStr [] | Some v \<Rightarrow> v)
      | _ \<Rightarrow> PStr [])"



subsection \<open>Example upstreams\<close>

text \<open>
  The four lines of the specification's third testable property, served with status 200,
  and a body that breaks off before its first line.
\<close>

definition example_response :: response where
  \<open>example_response =
     \<lparr>status_code = 200,
      lines = [str ''{"response":"A","done":false}'', str ''not-json'',
               str ''{"response":"B","done":true}'', str ''{"response":"C","done":false}''],
      ending = EndOfBody\<rparr>\<close>

definition broken_response :: response where
  "broken_response = \<lparr>status_code = 200, lines = [], ending = BodyFails\<rparr>"

section \<open>Properties of the embedding\<close>

subsection \<open>Sequencing and the four ways a line is handled\<close>

lemmas gen_defs = ret_def raise_def bind_def emit_def suspend_def yield_def sleep_def print_def
  on_exit_def try_except_def

lemmas event_defs = start_event_def status_event_def message_event_def closing_event_def
  close_event_def

lemmas session_defs = event_stream_def AsyncClient_def stream_def gen_defs head_actions_def
  event_defs

lemma bind_ret: "bind (ret x) f = f x"
  by (rule ext) (simp add: bind_def ret_def split: prod.splits)

lemma bind_raise: "bind (raise e) f = raise e"
  by (rule ext) (simp add: bind_def raise_def)

lemma bind_assoc: "bind (bind m f) g = bind m (\<lambda>x. bind (f x) g)"
  by (rule ext) (simp add: bind_def split: prod.splits sum.splits)

lemma yielded_append: "yielded (xs @ ys) = yielded xs @ yielded ys"
  by (induction xs rule: yielded.induct) simp_all

text \<open>
  A line is skipped when blank, reported and skipped when it does not decode, fatal when it
  decodes to something that is no dictionary, and yields its fragment otherwise.
\<close>

lemma loop_body_blank: "strip line = [] \<Longrightarrow> loop_body line = ret Continue"
  by (simp add: loop_body_def)

lemma loop_body_malformed:
  "strip line \<noteq> [] \<Longrightarrow> json_loads line = None \<Longrightarrow>
   loop_body line = bind (print (Could_not_decode line)) (\<lambda>_. ret Continue)"
  by (rule ext) (simp add: loop_body_def loads_def gen_defs)

lemma loop_body_not_dict:
  assumes "strip line \<noteq> []" "json_loads line = Some v" "\<forall>kvs. v \<noteq> PDict kvs"
  shows "loop_body line = raise AttributeError"
  using assms by (intro ext) (cases v; simp add: loop_body_def loads_def get_def gen_defs)

lemma loop_body_dict:
  "strip line \<noteq> [] \<Longrightarrow> json_loads line = Some (PDict kvs) \<Longrightarrow>
   loop_body line =
     bind (seq [print (Chunk (case map_of kvs (str ''response'') of None \<Rightarrow> PStr [] | Some v \<Rightarrow> v)),
                sleep 300,
                yield (message_event (case map_of kvs (str ''response'') of None \<Rightarrow> PStr [] | Some v \<Rightarrow> v))])
       (\<lambda>_. ret (if truthy (case map_of kvs (str ''done'') of None \<Rightarrow> PNone | Some v \<Rightarrow> v)
                  then Break else Continue))"
  by (rule ext)
     (simp add: loop_body_def loads_def get_def gen_defs message_event_def
           split: prod.splits sum.splits option.splits nat.splits)

lemma loop_body_cases:
  obtains
    (blank) "strip line = []" "loop_body line = ret Continue"
  | (malformed) "strip line \<noteq> []" "json_loads line = None"
      "loop_body line = bind (print (Could_not_decode line)) (\<lambda>_. ret Continue)"
  | (not_dict) v where "strip line \<noteq> []" "json_loads line = Some v" "\<forall>kvs. v \<noteq> PDict kvs"
      "loop_body line = raise AttributeError"
  | (dict) kvs chunk d where "strip line \<noteq> []" "json_loads line = Some (PDict kvs)"
      "chunk = (case map_of kvs (str ''response'') of None \<Rightarrow> PStr [] | Some v \<Rightarrow> v)"
      "d = (case map_of kvs (str ''done'') of None \<Rightarrow> PNone | Some v \<Rightarrow> v)"
      "loop_body line =
         bind (seq [print (Chunk chunk), sleep 300, yield (message_event chunk)])
           (\<lambda>_. ret (if truthy d then Break else Continue))"
proof (cases "strip line = []")
  case True
  then show ?thesis using blank loop_body_blank by blast
next
  case nonblank: False
  show ?thesis
  proof (cases "json_loads line")
    case None
    with nonblank show ?thesis using malformed loop_body_malformed by blast
  next
    case (Some v)
    show ?thesis
    proof (cases "\<exists>kvs. v = PDict kvs")
      case True
      then obtain kvs where "v = PDict kvs" by blast
      with nonblank Some show ?thesis using dict loop_body_dict by blast
    next
      case False
      with nonblank Some show ?thesis using not_dict loop_body_not_dict by blast
    qed
  qed
qed

subsection \<open>A consumer that goes away only cuts a run short\<close>

text \<open>
  Every construct of the generator preserves \<open>cancel_cuts\<close>, because no handler of the
  source catches a cancellation.
\<close>

lemma cancel_cutsI:
  assumes "\<And>tr b r. m None = (tr, b, r) \<Longrightarrow> b = None"
    and "\<And>b tr b' r tr0 r0. m b = (tr, b', r) \<Longrightarrow> m None = (tr0, None, r0) \<Longrightarrow>
           tr = tr0 \<and> r = r0 \<or> r = Inl Cancelled \<and> prefix (yielded tr) (yielded tr0)"
  shows "cancel_cuts m"
proof -
  obtain tr0 b0 r0 where n: "m None = (tr0, b0, r0)" by (cases "m None")
  with assms(1) have n': "m None = (tr0, None, r0)" by simp
  show ?thesis
    unfolding cancel_cuts_def
  proof (intro conjI allI)
    show "fst (snd (m None)) = None" using n' by simp
  next
    fix b
    obtain tr b' r where "m b = (tr, b', r)" by (cases "m b")
    with assms(2) [OF this n'] n'
    show "fst (m b) = fst (m None) \<and> snd (snd (m b)) = snd (snd (m None)) \<or>
          snd (snd (m b)) = Inl Cancelled \<and> prefix (yielded (fst (m b))) (yielded (fst (m None)))"
      by simp
  qed
qed

lemma cancel_cutsD1: "cancel_cuts m \<Longrightarrow> m None = (tr, b, r) \<Longrightarrow> b = None"
  by (simp add: cancel_cuts_def)

lemma cancel_cutsD2:
  "cancel_cuts m \<Longrightarrow> m b = (tr, b', r) \<Longrightarrow> m None = (tr0, b0, r0) \<Longrightarrow>
   tr = tr0 \<and> r = r0 \<or> r = Inl Cancelled \<and> prefix (yielded tr) (yielded tr0)"
  unfolding cancel_cuts_def by (metis fst_conv snd_conv)

lemma cancel_cuts_ret: "cancel_cuts (ret x)"
  by (rule cancel_cutsI) (simp_all add: ret_def)

lemma cancel_cuts_raise: "cancel_cuts (raise e)"
  by (rule cancel_cutsI) (simp_all add: raise_def)

lemma cancel_cuts_emit: "cancel_cuts (emit a)"
  by (rule cancel_cutsI) (auto simp: emit_def)

lemma cancel_cuts_suspend: "cancel_cuts suspend"
  by (rule cancel_cutsI) (auto simp: suspend_def split: option.splits nat.splits)

lemma cancel_cuts_bind:
  assumes m: "cancel_cuts m" and f: "\<And>x. cancel_cuts (f x)"
  shows "cancel_cuts (bind m f)"
proof (rule cancel_cutsI)
  fix tr b r
  assume run: "bind m f None = (tr, b, r)"
  obtain tr0 b0 r0 where m0: "m None = (tr0, b0, r0)" by (cases "m None")
  with m have b0: "b0 = None" by (rule cancel_cutsD1)
  show "b = None"
  proof (cases r0)
    case (Inl e)
    with run m0 b0 show ?thesis by (simp add: bind_def)
  next
    case (Inr x)
    obtain tr1 b1 r1 where f0: "f x None = (tr1, b1, r1)" by (cases "f x None")
    with f have "b1 = None" by (rule cancel_cutsD1)
    with run m0 b0 Inr f0 show ?thesis by (simp add: bind_def)
  qed
next
  fix b tr b' r tr0 r0
  assume run: "bind m f b = (tr, b', r)" and run0: "bind m f None = (tr0, None, r0)"
  obtain trm bm rm where mb: "m b = (trm, bm, rm)" by (cases "m b")
  obtain trn bn rn where mn: "m None = (trn, bn, rn)" by (cases "m None")
  with m have bn: "bn = None" by (rule cancel_cutsD1)
  from cancel_cutsD2 [OF m mb mn]
  consider (same) "trm = trn" "rm = rn"
    | (cut) "rm = Inl Cancelled" "prefix (yielded trm) (yielded trn)" by blast
  then show "tr = tr0 \<and> r = r0 \<or> r = Inl Cancelled \<and> prefix (yielded tr) (yielded tr0)"
  proof cases
    case same
    show ?thesis
    proof (cases rn)
      case (Inl e)
      with run run0 mb mn bn same show ?thesis by (simp add: bind_def)
    next
      case (Inr x)
      obtain tr1 b1 r1 where fb: "f x bm = (tr1, b1, r1)" by (cases "f x bm")
      obtain tr2 b2 r2 where fn: "f x None = (tr2, b2, r2)" by (cases "f x None")
      from cancel_cutsD2 [OF f fb fn]
      have "tr1 = tr2 \<and> r1 = r2 \<or> r1 = Inl Cancelled \<and> prefix (yielded tr1) (yielded tr2)" .
      with run run0 mb mn bn same Inr fb fn show ?thesis
        by (auto simp: bind_def yielded_append)
    qed
  next
    case cut
    have "prefix (yielded trm) (yielded tr0)"
    proof (cases rn)
      case (Inl e)
      with run0 mn bn cut show ?thesis by (simp add: bind_def)
    next
      case (Inr x)
      obtain tr2 b2 r2 where fn: "f x None = (tr2, b2, r2)" by (cases "f x None")
      with run0 mn bn Inr cut show ?thesis
        by (auto simp: bind_def yielded_append intro: prefix_order.trans)
    qed
    with run mb cut show ?thesis by (simp add: bind_def)
  qed
qed

lemma cancel_cuts_seq: "(\<And>m. m \<in> set ms \<Longrightarrow> cancel_cuts m) \<Longrightarrow> cancel_cuts (seq ms)"
  by (induction ms) (simp_all add: cancel_cuts_ret cancel_cuts_bind)

lemma cancel_cuts_yield: "cancel_cuts (yield ev)"
  unfolding yield_def by (rule cancel_cuts_seq) (auto simp: cancel_cuts_emit cancel_cuts_suspend)

lemma cancel_cuts_sleep: "cancel_cuts (sleep ms)"
  unfolding sleep_def by (rule cancel_cuts_seq) (auto simp: cancel_cuts_emit cancel_cuts_suspend)

lemma cancel_cuts_print: "cancel_cuts (print p)"
  unfolding print_def by (rule cancel_cuts_emit)

lemma cancel_cuts_on_exit:
  assumes m: "cancel_cuts m" and a: "yielded [a] = []"
  shows "cancel_cuts (on_exit m a)"
proof (rule cancel_cutsI)
  fix tr b r
  assume "on_exit m a None = (tr, b, r)"
  then show "b = None"
    using cancel_cutsD1 [OF m, of "fst (m None)" "fst (snd (m None))" "snd (snd (m None))"]
    by (auto simp: on_exit_def split: prod.splits)
next
  fix b tr b' r tr0 r0
  assume run: "on_exit m a b = (tr, b', r)" and run0: "on_exit m a None = (tr0, None, r0)"
  obtain trm bm rm where mb: "m b = (trm, bm, rm)" by (cases "m b")
  obtain trn bn rn where mn: "m None = (trn, bn, rn)" by (cases "m None")
  from cancel_cutsD2 [OF m mb mn] run run0 mb mn a
  show "tr = tr0 \<and> r = r0 \<or> r = Inl Cancelled \<and> prefix (yielded tr) (yielded tr0)"
    by (auto simp: on_exit_def yielded_append)
qed

lemma cancel_cuts_try_except:
  assumes m: "cancel_cuts m" and h: "cancel_cuts h" and e: "e \<noteq> Cancelled"
  shows "cancel_cuts (try_except m e h)"
proof (rule cancel_cutsI)
  fix tr b r
  assume run: "try_except m e h None = (tr, b, r)"
  obtain trn bn rn where mn: "m None = (trn, bn, rn)" by (cases "m None")
  with m have bn: "bn = None" by (rule cancel_cutsD1)
  obtain trh bh rh where hn: "h None = (trh, bh, rh)" by (cases "h None")
  with h have bh: "bh = None" by (rule cancel_cutsD1)
  from run mn bn hn bh show "b = None"
    by (cases rn) (auto simp: try_except_def split: if_splits)
next
  fix b tr b' r tr0 r0
  assume run: "try_except m e h b = (tr, b', r)"
    and run0: "try_except m e h None = (tr0, None, r0)"
  obtain trm bm rm where mb: "m b = (trm, bm, rm)" by (cases "m b")
  obtain trn bn rn where mn: "m None = (trn, bn, rn)" by (cases "m None")
  with m have bn: "bn = None" by (rule cancel_cutsD1)
  obtain trh bh rh where hb: "h bm = (trh, bh, rh)" by (cases "h bm")
  obtain trk bk rk where hn: "h None = (trk, bk, rk)" by (cases "h None")
  note hh = cancel_cutsD2 [OF h hb hn]
  from cancel_cutsD2 [OF m mb mn]
  consider (same) "trm = trn" "rm = rn"
    | (cut) "rm = Inl Cancelled" "prefix (yielded trm) (yielded trn)" by blast
  then show "tr = tr0 \<and> r = r0 \<or> r = Inl Cancelled \<and> prefix (yielded tr) (yielded tr0)"
  proof cases
    case same
    show ?thesis
    proof (cases "rn = Inl e")
      case True
      with run run0 mb mn bn same hb hn hh show ?thesis
        by (auto simp: try_except_def yielded_append)
    next
      case False
      with run run0 mb mn bn same show ?thesis
        by (cases rn) (auto simp: try_except_def)
    qed
  next
    case cut
    have "prefix (yielded trm) (yielded tr0)"
    proof (cases "rn = Inl e")
      case True
      with run0 mn bn hn cut show ?thesis
        by (auto simp: try_except_def yielded_append intro: prefix_order.trans)
    next
      case False
      with run0 mn bn cut show ?thesis
        by (cases rn) (auto simp: try_except_def)
    qed
    with run mb cut e show ?thesis by (auto simp: try_except_def)
  qed
qed

lemma cancel_cuts_loop_body: "cancel_cuts (loop_body line)"
proof (cases line rule: loop_body_cases)
  case blank
  then show ?thesis by (simp add: cancel_cuts_ret)
next
  case malformed
  then show ?thesis by (simp add: cancel_cuts_bind cancel_cuts_print cancel_cuts_ret)
next
  case (not_dict v)
  then show ?thesis by (simp add: cancel_cuts_raise)
next
  case (dict kvs chunk d)
  have "cancel_cuts (seq [print (Chunk chunk), sleep 300, yield (message_event chunk)])"
    by (rule cancel_cuts_seq) (auto simp: cancel_cuts_print cancel_cuts_sleep cancel_cuts_yield)
  with dict show ?thesis by (simp add: cancel_cuts_bind cancel_cuts_ret)
qed

lemma cancel_cuts_aiter_lines: "cancel_cuts (aiter_lines ls e)"
proof (induction ls)
  case Nil
  show ?case
    by (cases e) (simp_all add: cancel_cuts_bind cancel_cuts_suspend cancel_cuts_ret cancel_cuts_raise)
next
  case (Cons l ls)
  have "cancel_cuts (case c of Break \<Rightarrow> ret () | Continue \<Rightarrow> aiter_lines ls e)" for c
    using Cons.IH by (cases c) (simp_all add: cancel_cuts_ret)
  then show ?case
    by (simp add: cancel_cuts_bind cancel_cuts_suspend cancel_cuts_loop_body)
qed

lemma cancel_cuts_event_stream: "cancel_cuts (event_stream up)"
proof -
  have inner: "cancel_cuts (on_exit (seq [yield e1, sleep 1000, print p, yield e2, sleep 1000,
      aiter_lines ls e]) Stream_exit)" for e1 p e2 ls e
    by (intro cancel_cuts_on_exit cancel_cuts_seq)
       (auto simp: cancel_cuts_yield cancel_cuts_sleep cancel_cuts_print cancel_cuts_aiter_lines)
  have enter: "cancel_cuts (seq [emit (Stream_enter ollama_request), suspend])"
    by (rule cancel_cuts_seq) (auto simp: cancel_cuts_emit cancel_cuts_suspend)
  have strm: "cancel_cuts (stream up ollama_request f)"
    if "\<And>resp. cancel_cuts (on_exit (f resp) Stream_exit)" for f :: "response \<Rightarrow> unit gen"
    unfolding stream_def
    by (rule cancel_cuts_bind [OF enter]) (cases up; simp add: cancel_cuts_raise that)
  have body: "cancel_cuts (stream up ollama_request (\<lambda>resp.
      seq [yield e1, sleep 1000, print (p resp), yield (e2 resp), sleep 1000,
           aiter_lines (lines resp) (ending resp)]))" for e1 p e2
    by (rule strm) (rule inner)
  have exit: "yielded [AsyncClient_exit] = []" by simp
  have client: "cancel_cuts (AsyncClient (stream up ollama_request (\<lambda>resp.
      seq [yield e1, sleep 1000, print (p resp), yield (e2 resp), sleep 1000,
           aiter_lines (lines resp) (ending resp)])))" for e1 p e2
    unfolding AsyncClient_def
    by (rule cancel_cuts_bind [OF cancel_cuts_emit]) (rule cancel_cuts_on_exit [OF body exit])
  show ?thesis
    unfolding event_stream_def
    by (rule cancel_cuts_seq) (auto simp del: seq.simps simp: client cancel_cuts_yield cancel_cuts_sleep)
qed

lemma session_cancel:
  "session_events up b = session_events up None \<and> outcome up b = outcome up None \<or>
   outcome up b = Inl Cancelled \<and> prefix (session_events up b) (session_events up None)"
  using cancel_cuts_event_stream [of up]
  unfolding cancel_cuts_def session_events_def outcome_def by metis

subsection \<open>Sessions whose consumer stays\<close>

lemma loop_body_None: "fst (snd (loop_body line None)) = None"
  using cancel_cuts_loop_body [of line] by (simp add: cancel_cuts_def)

lemma aiter_lines_None: "fst (snd (aiter_lines ls e None)) = None"
  using cancel_cuts_aiter_lines [of ls e] by (simp add: cancel_cuts_def)

lemma event_stream_Refused:
  "fst (event_stream Refused b) = [AsyncClient_enter, Stream_enter ollama_request, AsyncClient_exit] \<and>
   snd (snd (event_stream Refused b)) = Inl (if b = Some 0 then Cancelled else TransportError)"
proof (cases b)
  case None
  then show ?thesis by (simp add: event_stream_def AsyncClient_def stream_def gen_defs)
next
  case (Some n)
  then show ?thesis
    by (cases n) (simp_all add: event_stream_def AsyncClient_def stream_def gen_defs)
qed

lemma event_stream_None:
  "event_stream (Responds r) None =
     (case aiter_lines (lines r) (ending r) None of
        (tr, b, res) \<Rightarrow>
          (head_actions (status_code r) @ tr @ [Stream_exit, AsyncClient_exit] @
             (case res of Inl e \<Rightarrow> [] | Inr u \<Rightarrow> tail_actions),
           None, res))"
proof -
  obtain tr res where it: "aiter_lines (lines r) (ending r) None = (tr, None, res)"
    using aiter_lines_None [of "lines r" "ending r"]
    by (cases "aiter_lines (lines r) (ending r) None") simp
  show ?thesis
    by (cases res)
       (simp_all add: it event_stream_def AsyncClient_def stream_def gen_defs head_actions_def
          tail_actions_def event_defs)
qed

lemma session_None:
  "session_events (Responds r) None =
     start_event # status_event (status_code r) #
       yielded (fst (aiter_lines (lines r) (ending r) None)) @
       (case outcome (Responds r) None of Inl e \<Rightarrow> [] | Inr u \<Rightarrow> [closing_event, close_event])"
  "outcome (Responds r) None = snd (snd (aiter_lines (lines r) (ending r) None))"
  by (simp_all add: session_events_def outcome_def event_stream_None head_actions_def
        tail_actions_def yielded_append split: prod.splits sum.splits)

lemma session_forever:
  "session_events (Responds r) None =
     start_event # status_event (status_code r) #
       yielded (fst (aiter_lines (lines r) (ending r) None)) @
       (case snd (snd (aiter_lines (lines r) (ending r) None)) of
          Inl x \<Rightarrow> [] | Inr u \<Rightarrow> [closing_event, close_event])"
  by (simp add: session_None)

lemma loop_body_None_cases:
  obtains
    (skipped) "\<not> spec_valid line" "yielded (fst (loop_body line None)) = []"
      "loop_body line None = (fst (loop_body line None), None, Inr Continue)"
  | (not_object) "spec_valid line" "\<not> spec_object line"
      "loop_body line None = ([], None, Inl AttributeError)"
  | (object) "spec_valid line" "spec_object line"
      "loop_body line None =
         ([Print (Chunk (fragment line)), Sleep 300, Yield (message_event (fragment line))], None,
          Inr (if done_line line then Break else Continue))"
proof (cases line rule: loop_body_cases)
  case blank
  then show ?thesis using skipped by (simp add: spec_valid_def gen_defs)
next
  case malformed
  then show ?thesis using skipped by (simp add: spec_valid_def gen_defs)
next
  case (not_dict v)
  then have "\<not> spec_object line" by (cases v) (simp_all add: spec_object_def)
  with not_dict show ?thesis using not_object by (simp add: spec_valid_def gen_defs)
next
  case (dict kvs chunk d)
  then show ?thesis using object
    by (simp add: spec_valid_def spec_object_def fragment_def done_line_def gen_defs)
qed

lemma aiter_lines_Cons_None:
  "aiter_lines (line # rest) e None =
     (case loop_body line None of
        (tr, b, Inl x) \<Rightarrow> (tr, b, Inl x)
      | (tr, b, Inr Break) \<Rightarrow> (tr, b, Inr ())
      | (tr, b, Inr Continue) \<Rightarrow>
          (case aiter_lines rest e b of (tr', b', r) \<Rightarrow> (tr @ tr', b', r)))"
  by (simp add: gen_defs split: prod.splits sum.splits ctl.splits)

lemma aiter_lines_Nil_None:
  "aiter_lines [] e None = ([], None, case e of EndOfBody \<Rightarrow> Inr () | BodyFails \<Rightarrow> Inl TransportError)"
  by (cases e) (simp_all add: gen_defs)




lemma aiter_aborts:
  assumes "\<forall>l \<in> set pre. spec_valid l \<longrightarrow> spec_object l \<and> \<not> done_line l"
    and "spec_valid line" "\<not> spec_object line"
  shows "yielded (fst (aiter_lines (pre @ line # rest) e None)) =
           map (\<lambda>l. message_event (fragment l)) (filter spec_valid pre) \<and>
         snd (snd (aiter_lines (pre @ line # rest) e None)) = Inl AttributeError"
  using assms(1)
proof (induction pre)
  case Nil
  from assms(2,3) show ?case
    by (cases line rule: loop_body_None_cases)
       (simp_all add: aiter_lines_Cons_None del: aiter_lines.simps)
next
  case (Cons l pre)
  then have IH: "yielded (fst (aiter_lines (pre @ line # rest) e None)) =
           map (\<lambda>l. message_event (fragment l)) (filter spec_valid pre) \<and>
         snd (snd (aiter_lines (pre @ line # rest) e None)) = Inl AttributeError"
    by simp
  from Cons.prems have l: "spec_valid l \<longrightarrow> spec_object l \<and> \<not> done_line l" by simp
  show ?case
    using IH l
    by (cases l rule: loop_body_None_cases)
       (auto simp: aiter_lines_Cons_None yielded_append simp del: aiter_lines.simps
             split: prod.splits)
qed

lemma aiter_ending:
  "fst (aiter_lines ls e None) = fst (aiter_lines ls EndOfBody None) \<and>
   (snd (snd (aiter_lines ls e None)) = snd (snd (aiter_lines ls EndOfBody None)) \<or>
    snd (snd (aiter_lines ls e None)) = Inl TransportError \<and>
    snd (snd (aiter_lines ls EndOfBody None)) = Inr ())"
proof (induction ls)
  case Nil
  show ?case by (cases e) (simp_all add: aiter_lines_Nil_None del: aiter_lines.simps)
next
  case (Cons l ls)
  show ?case
    using Cons.IH
    by (cases l rule: loop_body_None_cases)
       (auto simp: aiter_lines_Cons_None simp del: aiter_lines.simps split: prod.splits)
qed

lemma session_ending:
  "prefix (session_events (Responds \<lparr>status_code = c, lines = ls, ending = e\<rparr>) None)
          (session_events (Responds \<lparr>status_code = c, lines = ls, ending = EndOfBody\<rparr>) None)"
  "outcome (Responds \<lparr>status_code = c, lines = ls, ending = e\<rparr>) None = Inr () \<Longrightarrow>
   session_events (Responds \<lparr>status_code = c, lines = ls, ending = e\<rparr>) None =
   session_events (Responds \<lparr>status_code = c, lines = ls, ending = EndOfBody\<rparr>) None"
  using aiter_ending [of ls e]
  by (auto simp: session_forever session_None(2) simp del: aiter_lines.simps split: sum.splits)

lemma session_full:
  "prefix (session_events (Responds \<lparr>status_code = c, lines = ls, ending = e\<rparr>) b)
          (session_events (Responds \<lparr>status_code = c, lines = ls, ending = EndOfBody\<rparr>) None)"
  "outcome (Responds \<lparr>status_code = c, lines = ls, ending = e\<rparr>) b = Inr () \<Longrightarrow>
   session_events (Responds \<lparr>status_code = c, lines = ls, ending = e\<rparr>) b =
   session_events (Responds \<lparr>status_code = c, lines = ls, ending = EndOfBody\<rparr>) None"
proof -
  let ?up = "Responds \<lparr>status_code = c, lines = ls, ending = e\<rparr>"
  from session_cancel [of ?up b] have "prefix (session_events ?up b) (session_events ?up None)"
    by auto
  then show "prefix (session_events ?up b)
      (session_events (Responds \<lparr>status_code = c, lines = ls, ending = EndOfBody\<rparr>) None)"
    using session_ending(1) [of c ls e] by (rule prefix_order.trans)
  assume "outcome ?up b = Inr ()"
  with session_cancel [of ?up b]
  have "session_events ?up b = session_events ?up None" "outcome ?up None = Inr ()" by auto
  with session_ending(2) [of c ls e]
  show "session_events ?up b =
      session_events (Responds \<lparr>status_code = c, lines = ls, ending = EndOfBody\<rparr>) None"
    by simp
qed

text \<open>Only the last statement of the generator yields a \<^verbatim>\<open>close\<close> event.\<close>

lemma str_message_close: "str ''message'' \<noteq> str ''close''" "str ''status'' \<noteq> str ''close''"
  "str ''message'' \<noteq> str ''status''"
  by (simp_all add: str_def ord_def)

lemma is_close_simps:
  "\<not> is_close start_event" "\<not> is_close (status_event c)" "\<not> is_close (message_event v)"
  "\<not> is_close closing_event" "is_close close_event"
  by (simp_all add: is_close_def event_defs str_message_close)

lemma loop_body_yields:
  "ev \<in> set (yielded (fst (loop_body line None))) \<Longrightarrow> \<exists>v. ev = message_event v"
  by (cases line rule: loop_body_cases) (auto simp: gen_defs)

lemma aiter_lines_yields:
  "ev \<in> set (yielded (fst (aiter_lines ls e None))) \<Longrightarrow> \<exists>v. ev = message_event v"
proof (induction ls)
  case Nil
  then show ?case by (cases e) (simp_all add: gen_defs)
next
  case (Cons l ls)
  obtain tr r where lb: "loop_body l None = (tr, None, r)"
    using loop_body_None [of l] by (cases "loop_body l None") simp
  obtain tr' b' r' where it: "aiter_lines ls e None = (tr', b', r')"
    by (cases "aiter_lines ls e None")
  from Cons.prems lb it have "ev \<in> set (yielded tr) \<or> ev \<in> set (yielded tr')"
    by (cases r; cases "projr r") (auto simp: gen_defs yielded_append split: if_splits)
  with Cons.IH loop_body_yields [of ev l] lb it show ?case by auto
qed

lemma prefix_butlast:
  assumes "prefix xs ys"
  shows "prefix (butlast xs) (butlast ys)"
proof -
  from assms obtain zs where ys: "ys = xs @ zs" by (auto simp: prefix_def)
  show ?thesis
  proof (cases "zs = []")
    case True
    with ys show ?thesis by simp
  next
    case False
    with ys have "butlast ys = xs @ butlast zs" by (simp add: butlast_append)
    then show ?thesis using prefixeq_butlast [of xs] by (simp add: prefix_prefix)
  qed
qed

lemma filter_prefix_Nil: "prefix xs ys \<Longrightarrow> filter P ys = [] \<Longrightarrow> filter P xs = []"
  by (auto simp: prefix_def)

lemma session_None_close:
  "filter is_close (butlast (session_events up None)) = []"
  "outcome up None = Inr () \<Longrightarrow>
     session_events up None \<noteq> [] \<and> last (session_events up None) = close_event"
  "outcome up None = Inl e \<Longrightarrow> filter is_close (session_events up None) = []"
proof -
  have msgs: "filter is_close (yielded (fst (aiter_lines ls e None))) = []" for ls e
    by (fastforce simp: filter_empty_conv is_close_simps dest: aiter_lines_yields)
  show "filter is_close (butlast (session_events up None)) = []"
  proof (cases up)
    case Refused
    then show ?thesis using event_stream_Refused [of None] by (simp add: session_events_def)
  next
    case (Responds r)
    then show ?thesis
      by (cases "outcome (Responds r) None")
         (simp_all add: session_None(1) butlast_append msgs is_close_simps filter_prefix_Nil [OF prefixeq_butlast])
  qed
  show "session_events up None \<noteq> [] \<and> last (session_events up None) = close_event"
    if "outcome up None = Inr ()"
  proof (cases up)
    case Refused
    with that show ?thesis using event_stream_Refused [of None] by (simp add: outcome_def)
  next
    case (Responds r)
    with that show ?thesis by (simp add: session_None(1))
  qed
  show "filter is_close (session_events up None) = []" if "outcome up None = Inl e"
  proof (cases up)
    case Refused
    then show ?thesis using event_stream_Refused [of None] by (simp add: session_events_def)
  next
    case (Responds r)
    with that show ?thesis by (simp add: session_None(1) msgs is_close_simps)
  qed
qed

subsection \<open>The first actions of a session, for every consumer\<close>

text \<open>
  Five suspension points lie before the first read of the body: sending the request, the
  start event, the first sleep, the status event and the second sleep.
\<close>

lemma budget_cases:
  obtains (forever) "b = None"
  | (zero) "b = Some 0"
  | (one) "b = Some (Suc 0)"
  | (two) "b = Some (Suc (Suc 0))"
  | (three) "b = Some (Suc (Suc (Suc 0)))"
  | (four) "b = Some (Suc (Suc (Suc (Suc 0))))"
  | (more) n where "b = Some (Suc (Suc (Suc (Suc (Suc n)))))"
proof (cases b)
  case None
  then show ?thesis by (rule forever)
next
  case (Some k)
  have "k = 0 \<or> k = Suc 0 \<or> k = Suc (Suc 0) \<or> k = Suc (Suc (Suc 0)) \<or>
        k = Suc (Suc (Suc (Suc 0))) \<or> (\<exists>n. k = Suc (Suc (Suc (Suc (Suc n)))))"
    by presburger
  with Some show ?thesis using zero one two three four more by blast
qed

lemma head_zero:
  "event_stream (Responds r) (Some 0) =
     ([AsyncClient_enter, Stream_enter ollama_request, AsyncClient_exit], Some 0, Inl Cancelled)"
  by (simp add: session_defs)

lemma head_one:
  "event_stream (Responds r) (Some (Suc 0)) =
     (take 3 (head_actions (status_code r)) @ [Stream_exit, AsyncClient_exit], Some 0, Inl Cancelled)"
  by (simp add: session_defs)

lemma head_two:
  "event_stream (Responds r) (Some (Suc (Suc 0))) =
     (take 4 (head_actions (status_code r)) @ [Stream_exit, AsyncClient_exit], Some 0, Inl Cancelled)"
  by (simp add: session_defs)

lemma head_three:
  "event_stream (Responds r) (Some (Suc (Suc (Suc 0)))) =
     (take 6 (head_actions (status_code r)) @ [Stream_exit, AsyncClient_exit], Some 0, Inl Cancelled)"
  by (simp add: session_defs)

lemma head_four:
  "event_stream (Responds r) (Some (Suc (Suc (Suc (Suc 0))))) =
     (head_actions (status_code r) @ [Stream_exit, AsyncClient_exit], Some 0, Inl Cancelled)"
  by (simp add: session_defs)

lemma head_more:
  "event_stream (Responds r) (Some (Suc (Suc (Suc (Suc (Suc n)))))) = after_head r (Some n)"
proof -
  obtain tr b' res where it: "aiter_lines (lines r) (ending r) (Some n) = (tr, b', res)"
    by (cases "aiter_lines (lines r) (ending r) (Some n)")
  show ?thesis
  proof (cases res)
    case (Inl x)
    with it show ?thesis by (simp add: after_head_def session_defs)
  next
    case (Inr u)
    with it show ?thesis
      by (simp add: after_head_def session_defs split: option.splits nat.splits)
  qed
qed

lemma head_forever: "event_stream (Responds r) None = after_head r None"
proof -
  obtain tr res where it: "aiter_lines (lines r) (ending r) None = (tr, None, res)"
    using aiter_lines_None [of "lines r" "ending r"]
    by (cases "aiter_lines (lines r) (ending r) None") simp
  then show ?thesis
    by (cases res) (simp_all add: after_head_def session_defs)
qed

subsection \<open>The decoder and the loop on concrete lines\<close>

text \<open>The status event of a response with status 200.\<close>

lemma status_event_200:
  "status_event 200 = \<lparr>event = str ''status'', data = PStr (str ''HTTP Status Code: 200<br>'')\<rparr>"
  by (simp add: status_event_def str_int_def decimal.simps str_def ord_def)

lemmas eval_defs = str_def ord_def isspace_def strip_def json_loads_def lex.simps next_token_def
  scalar_def literal_def orelse_def match_number_def int_part_def frac_part_def exp_part_def
  isdigit_def digits_val_def json_ws_def Let_def pushc_def backslash_def decode_uXXXX_def hexval_def
  AList.update.simps

lemma keys:
  "str ''done'' \<noteq> str ''response''" "str ''response'' \<noteq> str ''done''"
  by (simp_all add: str_def ord_def)

lemma line_A:
  \<open>strip (str ''{"response":"A","done":false}'') \<noteq> []\<close>
  \<open>json_loads (str ''{"response":"A","done":false}'') =
     Some (PDict [(str ''response'', PStr (str ''A'')), (str ''done'', PBool False)])\<close>
  by (simp_all add: eval_defs)

lemma line_not_json:
  \<open>strip (str ''not-json'') \<noteq> []\<close>
  \<open>json_loads (str ''not-json'') = None\<close>
  by (simp_all add: eval_defs)

lemma line_B:
  \<open>strip (str ''{"response":"B","done":true}'') \<noteq> []\<close>
  \<open>json_loads (str ''{"response":"B","done":true}'') =
     Some (PDict [(str ''response'', PStr (str ''B'')), (str ''done'', PBool True)])\<close>
  by (simp_all add: eval_defs)

lemma line_C:
  \<open>strip (str ''{"response":"C","done":false}'') \<noteq> []\<close>
  \<open>json_loads (str ''{"response":"C","done":false}'') =
     Some (PDict [(str ''response'', PStr (str ''C'')), (str ''done'', PBool False)])\<close>
  by (simp_all add: eval_defs)

lemma line_five:
  "strip (str ''5'') \<noteq> []" "json_loads (str ''5'') = Some (PInt 5)"
  by (simp_all add: eval_defs)

lemma line_x:
  \<open>strip (str ''"x"'') \<noteq> []\<close> \<open>json_loads (str ''"x"'') = Some (PStr (str ''x''))\<close>
  by (simp_all add: eval_defs)


lemma classify:
  \<open>spec_valid (str ''{"response":"A","done":false}'')\<close>
  \<open>spec_object (str ''{"response":"A","done":false}'')\<close>
  \<open>\<not> done_line (str ''{"response":"A","done":false}'')\<close>
  \<open>fragment (str ''{"response":"A","done":false}'') = PStr (str ''A'')\<close>
  \<open>\<not> spec_valid (str ''not-json'')\<close>
  \<open>spec_valid (str ''{"response":"B","done":true}'')\<close>
  \<open>spec_object (str ''{"response":"B","done":true}'')\<close>
  \<open>done_line (str ''{"response":"B","done":true}'')\<close>
  \<open>fragment (str ''{"response":"B","done":true}'') = PStr (str ''B'')\<close>
  \<open>spec_valid (str ''{"response":"C","done":false}'')\<close>
  \<open>spec_valid (str ''5'')\<close>
  \<open>\<not> spec_object (str ''5'')\<close>
  \<open>\<not> done_line (str ''5'')\<close>
  \<open>spec_valid (str ''"x"'')\<close>
  \<open>\<not> spec_object (str ''"x"'')\<close>
  by (simp_all add: spec_valid_def spec_object_def done_line_def fragment_def line_A line_B line_C
        line_not_json line_five line_x keys)

lemma loop_body_A:
  \<open>loop_body (str ''{"response":"A","done":false}'') =
     bind (seq [print (Chunk (PStr (str ''A''))), sleep 300, yield (message_event (PStr (str ''A'')))])
       (\<lambda>_. ret Continue)\<close>
  by (simp add: loop_body_dict [OF line_A] keys)

lemma loop_body_B:
  \<open>loop_body (str ''{"response":"B","done":true}'') =
     bind (seq [print (Chunk (PStr (str ''B''))), sleep 300, yield (message_event (PStr (str ''B'')))])
       (\<lambda>_. ret Break)\<close>
  by (simp add: loop_body_dict [OF line_B] keys)

lemma loop_body_not_json:
  \<open>loop_body (str ''not-json'') =
     bind (print (Could_not_decode (str ''not-json''))) (\<lambda>_. ret Continue)\<close>
  by (rule loop_body_malformed [OF line_not_json])

lemma aiter_ABC:
  \<open>aiter_lines (str ''{"response":"A","done":false}'' # str ''not-json'' #
       str ''{"response":"B","done":true}'' # rest) e =
    bind suspend (\<lambda>_.
    bind (seq [print (Chunk (PStr (str ''A''))), sleep 300, yield (message_event (PStr (str ''A'')))]) (\<lambda>_.
    bind suspend (\<lambda>_.
    bind (print (Could_not_decode (str ''not-json''))) (\<lambda>_.
    bind suspend (\<lambda>_.
    bind (seq [print (Chunk (PStr (str ''B''))), sleep 300, yield (message_event (PStr (str ''B'')))]) (\<lambda>_.
    ret ()))))))\<close>
  by (simp add: loop_body_A loop_body_B loop_body_not_json bind_assoc bind_ret)

lemma aiter_ABC_None:
  \<open>aiter_lines (str ''{"response":"A","done":false}'' # str ''not-json'' #
       str ''{"response":"B","done":true}'' # rest) e None =
    ([Print (Chunk (PStr (str ''A''))), Sleep 300, Yield (message_event (PStr (str ''A''))),
      Print (Could_not_decode (str ''not-json'')),
      Print (Chunk (PStr (str ''B''))), Sleep 300, Yield (message_event (PStr (str ''B'')))],
     None, Inr ())\<close>
  unfolding aiter_ABC by (simp add: gen_defs)

section \<open>The claims\<close>

subsection \<open>C1: the terminal event\<close>

text \<open>
  Claim C1, as the code has it. In every session at most one \<^verbatim>\<open>close\<close> event is yielded
  and no event follows it: no event but the last is a \<^verbatim>\<open>close\<close>. A session that runs
  to completion (the consumer stayed, the upstream answered, the body was read to its end
  or to a line that is done, every decoded line was an object) ends with the
  \<^verbatim>\<open>close\<close> event. A session that ends with an exception of the upstream or of the
  decoding (connection error, transport error in the body, a line that is no object)
  yields no \<^verbatim>\<open>close\<close> event at all.
\<close>

theorem close_event_discipline:
  "filter is_close (butlast (session_events up b)) = [] \<and>
   (outcome up b = Inr () \<longrightarrow>
      session_events up b \<noteq> [] \<and> last (session_events up b) = close_event) \<and>
   (\<forall>e. outcome up b = Inl e \<and> e \<noteq> Cancelled \<longrightarrow> filter is_close (session_events up b) = [])"
proof -
  from session_cancel [of up b]
  consider (same) "session_events up b = session_events up None" "outcome up b = outcome up None"
    | (cut) "outcome up b = Inl Cancelled" "prefix (session_events up b) (session_events up None)"
    by blast
  then show ?thesis
  proof cases
    case same
    then show ?thesis using session_None_close [of up] by auto
  next
    case cut
    from cut(2) have "prefix (butlast (session_events up b)) (butlast (session_events up None))"
      by (rule prefix_butlast)
    then have "filter is_close (butlast (session_events up b)) = []"
      using session_None_close(1) by (rule filter_prefix_Nil)
    with cut(1) show ?thesis by simp
  qed
qed

text \<open>
  The theorem at two sessions: the example, which runs to completion, and the body that
  breaks off, which ends with the transport error.
\<close>

theorem close_event_discipline_witness:
  "outcome (Responds example_response) None = Inr () \<and>
   last (session_events (Responds example_response) None) = close_event \<and>
   filter is_close (butlast (session_events (Responds example_response) None)) = [] \<and>
   outcome (Responds broken_response) None = Inl TransportError \<and>
   filter is_close (session_events (Responds broken_response) None) = []"
proof -
  have 1: "outcome (Responds example_response) None = Inr ()"
    by (simp add: session_None(2) example_response_def aiter_ABC_None del: aiter_lines.simps)
  have 2: "outcome (Responds broken_response) None = Inl TransportError"
    by (simp add: session_None(2) broken_response_def gen_defs)
  from close_event_discipline [of "Responds example_response" None]
    close_event_discipline [of "Responds broken_response" None] 1 2
  show ?thesis by simp
qed

text \<open>
  Claim C1 as stated fails: when the upstream refuses the connection the session yields no
  event, so its event sequence holds no \<^verbatim>\<open>close\<close> event.
\<close>

theorem refused_session_has_no_close: "session_events Refused None = []"
  using event_stream_Refused [of None] by (simp add: session_events_def)

subsection \<open>C2: a connection that cannot be made\<close>

text \<open>
  Claim C2, as the code has it. When the upstream refuses the connection, the session
  yields no event at all: no event describing the failure, no \<^verbatim>\<open>close\<close>, no fragment.
  It sends the request, leaves the client block (the client is released; the response
  block was never entered) and lets the transport error escape to its caller, or the
  cancellation when the consumer had gone while the request was under way.
\<close>

theorem refused_connection_escapes:
  "session_events Refused b = [] \<and>
   fst (event_stream Refused b) =
     [AsyncClient_enter, Stream_enter ollama_request, AsyncClient_exit] \<and>
   outcome Refused b = Inl (if b = Some 0 then Cancelled else TransportError)"
  using event_stream_Refused [of b] by (simp add: session_events_def outcome_def)

text \<open>
  Claim C2 as stated fails: the run against a refusing upstream consists of the request
  and the release of the client, and ends with the transport error unhandled.
\<close>

theorem refused_connection_counterexample:
  "event_stream Refused None =
     ([AsyncClient_enter, Stream_enter ollama_request, AsyncClient_exit], None, Inl TransportError)"
  by (simp add: event_stream_def AsyncClient_def stream_def gen_defs)

subsection \<open>C3: lines that do not decode\<close>



subsection \<open>C4: the number of fragments\<close>




subsection \<open>C5: stopping at the line that is done\<close>

text \<open>
  Claim C5. For the four lines of the claim, whatever the status code and however the body
  would have ended, the events are the start banner, the status event, the fragments
  \<^verbatim>\<open>A\<close> and \<^verbatim>\<open>B\<close>, the closing banner and \<^verbatim>\<open>close\<close>. The fragment of
  the line that is done is yielded, and nothing after that line is read: the whole run
  (actions, exit, suspension points used) is the same whatever follows the line.
\<close>

theorem stops_at_done_line:
  \<open>session_events
      (Responds \<lparr>status_code = c,
                 lines = [str ''{"response":"A","done":false}'', str ''not-json'',
                          str ''{"response":"B","done":true}'',
                          str ''{"response":"C","done":false}''],
                 ending = e\<rparr>) None =
    [start_event, status_event c, message_event (PStr (str ''A'')),
     message_event (PStr (str ''B'')), closing_event, close_event] \<and>
   event_stream
      (Responds \<lparr>status_code = c,
                 lines = str ''{"response":"A","done":false}'' # str ''not-json'' #
                         str ''{"response":"B","done":true}'' # rest,
                 ending = e\<rparr>) b =
   event_stream
      (Responds \<lparr>status_code = c,
                 lines = [str ''{"response":"A","done":false}'', str ''not-json'',
                          str ''{"response":"B","done":true}''],
                 ending = EndOfBody\<rparr>) b\<close>
proof
  show \<open>session_events
      (Responds \<lparr>status_code = c,
                 lines = [str ''{"response":"A","done":false}'', str ''not-json'',
                          str ''{"response":"B","done":true}'',
                          str ''{"response":"C","done":false}''],
                 ending = e\<rparr>) None =
    [start_event, status_event c, message_event (PStr (str ''A'')),
     message_event (PStr (str ''B'')), closing_event, close_event]\<close>
    by (simp add: session_events_def event_stream_None aiter_ABC_None head_actions_def
          tail_actions_def del: aiter_lines.simps)
next
  show \<open>event_stream
      (Responds \<lparr>status_code = c,
                 lines = str ''{"response":"A","done":false}'' # str ''not-json'' #
                         str ''{"response":"B","done":true}'' # rest,
                 ending = e\<rparr>) b =
   event_stream
      (Responds \<lparr>status_code = c,
                 lines = [str ''{"response":"A","done":false}'', str ''not-json'',
                          str ''{"response":"B","done":true}''],
                 ending = EndOfBody\<rparr>) b\<close>
    by (simp add: event_stream_def stream_def aiter_ABC del: aiter_lines.simps seq.simps)
qed

subsection \<open>C6: the first two events\<close>

text \<open>
  Claim C6, as the code has it. Every session begins by entering the client block and
  sending the request; no event is yielded before. When the upstream answers and the
  consumer lets three suspension points pass, the first event is the start banner, yielded
  after the request was sent and answered, and the second event is the status event with
  the status code of the response.
\<close>

theorem request_precedes_first_event:
  "take 2 (fst (event_stream up b)) = [AsyncClient_enter, Stream_enter ollama_request] \<and>
   (stays 3 b \<longrightarrow>
      take 6 (fst (event_stream (Responds r) b)) =
        [AsyncClient_enter, Stream_enter ollama_request, Yield start_event, Sleep 1000,
         Print (Status_Code (status_code r)), Yield (status_event (status_code r))])"
proof
  show "take 2 (fst (event_stream up b)) = [AsyncClient_enter, Stream_enter ollama_request]"
  proof (cases up)
    case Refused
    then show ?thesis using event_stream_Refused [of b] by simp
  next
    case (Responds r')
    then show ?thesis
      by (cases b rule: budget_cases)
         (simp_all add: head_zero head_one head_two head_three head_four head_more head_forever
            after_head_def head_actions_def split: prod.splits sum.splits)
  qed
next
  show "stays 3 b \<longrightarrow>
      take 6 (fst (event_stream (Responds r) b)) =
        [AsyncClient_enter, Stream_enter ollama_request, Yield start_event, Sleep 1000,
         Print (Status_Code (status_code r)), Yield (status_event (status_code r))]"
    by (cases b rule: budget_cases)
       (simp_all add: head_zero head_one head_two head_three head_four head_more head_forever
          after_head_def head_actions_def split: prod.splits sum.splits)
qed

text \<open>The theorem at the example, with a consumer that stays.\<close>

theorem request_precedes_first_event_witness:
  "stays 3 None \<and>
   take 6 (fst (event_stream (Responds example_response) None)) =
     [AsyncClient_enter, Stream_enter ollama_request, Yield start_event, Sleep 1000,
      Print (Status_Code 200), Yield (status_event 200)]"
  using request_precedes_first_event [of Refused None example_response]
  by (simp add: example_response_def)

text \<open>
  Claim C6 as stated fails: in the run of the example the request is sent before the start
  banner is yielded.
\<close>

theorem first_event_follows_request:
  "take 3 (fst (event_stream (Responds example_response) None)) =
     [AsyncClient_enter, Stream_enter ollama_request, Yield start_event]"
  by (simp add: head_forever after_head_def head_actions_def split: prod.splits sum.splits)

subsection \<open>C7: the status code\<close>

text \<open>
  Claim C7. Replacing the status code of a response by any other changes nothing in a
  session but its fifth and sixth action, the printed status and the status event: the
  first four actions, every action after the sixth, the exit and the suspension points
  used are the same, for every consumer. With a consumer that stays, the sixth action
  yields the status event carrying the status code.
\<close>

theorem status_code_is_only_reported:
  "snd (event_stream (Responds (r\<lparr>status_code := c\<rparr>)) b) = snd (event_stream (Responds r) b) \<and>
   take 4 (fst (event_stream (Responds (r\<lparr>status_code := c\<rparr>)) b)) =
     take 4 (fst (event_stream (Responds r) b)) \<and>
   drop 6 (fst (event_stream (Responds (r\<lparr>status_code := c\<rparr>)) b)) =
     drop 6 (fst (event_stream (Responds r) b)) \<and>
   take 6 (fst (event_stream (Responds r) None)) =
     [AsyncClient_enter, Stream_enter ollama_request, Yield start_event, Sleep 1000,
      Print (Status_Code (status_code r)), Yield (status_event (status_code r))]"
proof -
  have "take 6 (fst (event_stream (Responds r) None)) =
     [AsyncClient_enter, Stream_enter ollama_request, Yield start_event, Sleep 1000,
      Print (Status_Code (status_code r)), Yield (status_event (status_code r))]"
    by (simp add: head_forever after_head_def head_actions_def split: prod.splits sum.splits)
  moreover have "snd (event_stream (Responds (r\<lparr>status_code := c\<rparr>)) b) =
      snd (event_stream (Responds r) b) \<and>
    take 4 (fst (event_stream (Responds (r\<lparr>status_code := c\<rparr>)) b)) =
      take 4 (fst (event_stream (Responds r) b)) \<and>
    drop 6 (fst (event_stream (Responds (r\<lparr>status_code := c\<rparr>)) b)) =
      drop 6 (fst (event_stream (Responds r) b))"
    by (cases b rule: budget_cases)
       (simp_all add: head_zero head_one head_two head_three head_four head_more head_forever
          after_head_def head_actions_def split: prod.splits sum.splits)
  ultimately show ?thesis by simp
qed

subsection \<open>C8: a line that decodes to no object\<close>

text \<open>
  Claim C8. Let a line decode to a value that is not a dictionary, after lines that are
  blank, do not decode, or are objects that are not done. With a consumer that stays the
  session ends with the \<^verbatim>\<open>AttributeError\<close> unhandled, and its events are the start
  banner, the status event and the fragments of the lines before: neither the closing
  banner nor a \<^verbatim>\<open>close\<close> event is yielded.
\<close>

theorem non_object_line_aborts:
  assumes "\<forall>l \<in> set pre. spec_valid l \<longrightarrow> spec_object l \<and> \<not> done_line l"
    and "strip line \<noteq> []" and "json_loads line = Some v" and "\<forall>kvs. v \<noteq> PDict kvs"
  shows "outcome (Responds \<lparr>status_code = c, lines = pre @ line # rest, ending = e\<rparr>) None =
      Inl AttributeError \<and>
    session_events (Responds \<lparr>status_code = c, lines = pre @ line # rest, ending = e\<rparr>) None =
      start_event # status_event c # map (\<lambda>l. message_event (fragment l)) (filter spec_valid pre) \<and>
    filter is_close
      (session_events (Responds \<lparr>status_code = c, lines = pre @ line # rest, ending = e\<rparr>) None) = []"
proof -
  from assms(2-4) have "spec_valid line" "\<not> spec_object line"
    by (cases v; simp add: spec_valid_def spec_object_def)+
  from aiter_aborts [OF assms(1) this, of rest e]
  show ?thesis
    by (simp add: session_forever session_None(2) is_close_simps filter_empty_conv
          del: aiter_lines.simps)
qed

text \<open>The theorem at the lines \<^verbatim>\<open>5\<close> and \<^verbatim>\<open>"x"\<close> of the claim.\<close>

theorem non_object_line_aborts_witness:
  \<open>strip (str ''5'') \<noteq> [] \<and> json_loads (str ''5'') = Some (PInt 5) \<and>
   strip (str ''"x"'') \<noteq> [] \<and> json_loads (str ''"x"'') = Some (PStr (str ''x'')) \<and>
   outcome (Responds \<lparr>status_code = 200,
       lines = [str ''{"response":"A","done":false}'', str ''5'', str ''{"response":"B","done":true}''],
       ending = EndOfBody\<rparr>) None = Inl AttributeError \<and>
   session_events (Responds \<lparr>status_code = 200,
       lines = [str ''{"response":"A","done":false}'', str ''5'', str ''{"response":"B","done":true}''],
       ending = EndOfBody\<rparr>) None =
     [start_event, status_event 200, message_event (PStr (str ''A''))] \<and>
   outcome (Responds \<lparr>status_code = 200, lines = [str ''"x"''], ending = EndOfBody\<rparr>) None =
     Inl AttributeError \<and>
   session_events (Responds \<lparr>status_code = 200, lines = [str ''"x"''], ending = EndOfBody\<rparr>) None =
     [start_event, status_event 200]\<close>
  using non_object_line_aborts [of \<open>[str ''{"response":"A","done":false}'']\<close> "str ''5''" "PInt 5"
      200 \<open>[str ''{"response":"B","done":true}'']\<close> EndOfBody]
    non_object_line_aborts [of "[]" \<open>str ''"x"''\<close> "PStr (str ''x'')" 200 "[]" EndOfBody]
  by (simp add: line_five line_x classify del: aiter_lines.simps)

subsection \<open>C9: what the events depend on\<close>

text \<open>
  Claim C9, as the code has it. Take two runs that see the same status code and the same
  lines, whatever the ends of their bodies and their consumers. The events of one are a
  prefix of the events of the other, and when both runs complete the events are the same.
  In every run the request sent is the constant of the source.
\<close>

theorem events_determined_by_status_and_lines:
  "(prefix (session_events (Responds \<lparr>status_code = c, lines = ls, ending = e\<rparr>) b)
           (session_events (Responds \<lparr>status_code = c, lines = ls, ending = e'\<rparr>) b') \<or>
    prefix (session_events (Responds \<lparr>status_code = c, lines = ls, ending = e'\<rparr>) b')
           (session_events (Responds \<lparr>status_code = c, lines = ls, ending = e\<rparr>) b)) \<and>
   (outcome (Responds \<lparr>status_code = c, lines = ls, ending = e\<rparr>) b = Inr () \<and>
    outcome (Responds \<lparr>status_code = c, lines = ls, ending = e'\<rparr>) b' = Inr () \<longrightarrow>
      session_events (Responds \<lparr>status_code = c, lines = ls, ending = e\<rparr>) b =
      session_events (Responds \<lparr>status_code = c, lines = ls, ending = e'\<rparr>) b') \<and>
   take 2 (fst (event_stream up b)) =
     [AsyncClient_enter,
      Stream_enter
        \<lparr>verb = str ''POST'', url = str ''http://localhost:11434/api/generate'',
         json = PDict [(str ''model'', PStr (str ''llama3.2'')),
                       (str ''prompt'', PStr (str ''What is the capital of France?'')),
                       (str ''stream'', PBool True)]\<rparr>]"
proof (intro conjI impI)
  show "prefix (session_events (Responds \<lparr>status_code = c, lines = ls, ending = e\<rparr>) b)
           (session_events (Responds \<lparr>status_code = c, lines = ls, ending = e'\<rparr>) b') \<or>
    prefix (session_events (Responds \<lparr>status_code = c, lines = ls, ending = e'\<rparr>) b')
           (session_events (Responds \<lparr>status_code = c, lines = ls, ending = e\<rparr>) b)"
    using session_full(1) [of c ls e b] session_full(1) [of c ls e' b']
    by (rule prefix_same_cases)
next
  assume "outcome (Responds \<lparr>status_code = c, lines = ls, ending = e\<rparr>) b = Inr () \<and>
    outcome (Responds \<lparr>status_code = c, lines = ls, ending = e'\<rparr>) b' = Inr ()"
  then show "session_events (Responds \<lparr>status_code = c, lines = ls, ending = e\<rparr>) b =
      session_events (Responds \<lparr>status_code = c, lines = ls, ending = e'\<rparr>) b'"
    using session_full(2) [of c ls e b] session_full(2) [of c ls e' b'] by simp
next
  have "take 2 (fst (event_stream up b)) = [AsyncClient_enter, Stream_enter ollama_request]"
  proof (cases up)
    case Refused
    then show ?thesis using event_stream_Refused [of b] by simp
  next
    case (Responds r')
    then show ?thesis
      by (cases b rule: budget_cases)
         (simp_all add: head_zero head_one head_two head_three head_four head_more head_forever
            after_head_def head_actions_def split: prod.splits sum.splits)
  qed
  then show "take 2 (fst (event_stream up b)) =
     [AsyncClient_enter,
      Stream_enter
        \<lparr>verb = str ''POST'', url = str ''http://localhost:11434/api/generate'',
         json = PDict [(str ''model'', PStr (str ''llama3.2'')),
                       (str ''prompt'', PStr (str ''What is the capital of France?'')),
                       (str ''stream'', PBool True)]\<rparr>]"
    by (simp add: ollama_request_def)
qed

text \<open>
  The theorem at the example, once with a clean end and a consumer that stays, once with a
  breaking body and a consumer that lets twenty suspension points pass: both complete.
\<close>

theorem events_determined_by_status_and_lines_witness:
  "outcome (Responds example_response) None = Inr () \<and>
   outcome (Responds (example_response\<lparr>ending := BodyFails\<rparr>)) (Some 20) = Inr () \<and>
   session_events (Responds example_response) None =
     session_events (Responds (example_response\<lparr>ending := BodyFails\<rparr>)) (Some 20)"
proof -
  have 1: "outcome (Responds example_response) None = Inr ()"
    by (simp add: session_None(2) example_response_def aiter_ABC_None del: aiter_lines.simps)
  have 2: "outcome (Responds (example_response\<lparr>ending := BodyFails\<rparr>)) (Some 20) = Inr ()"
    by (simp add: outcome_def example_response_def event_stream_def AsyncClient_def stream_def
          aiter_ABC gen_defs del: aiter_lines.simps)
  from events_determined_by_status_and_lines [of "status_code example_response"
      "lines example_response" EndOfBody None BodyFails "Some 20" Refused] 1 2
  show ?thesis by (simp add: example_response_def)
qed

text \<open>
  Claim C9 as stated fails: two runs see status 200 and the same single line; the body of
  one ends cleanly, the body of the other with a transport error, and the second run
  yields neither the closing banner nor \<^verbatim>\<open>close\<close>.
\<close>

theorem transport_error_changes_events:
  \<open>session_events (Responds \<lparr>status_code = 200, lines = [str ''{"response":"A","done":false}''],
       ending = EndOfBody\<rparr>) None =
     [start_event, status_event 200, message_event (PStr (str ''A'')), closing_event, close_event] \<and>
   session_events (Responds \<lparr>status_code = 200, lines = [str ''{"response":"A","done":false}''],
       ending = BodyFails\<rparr>) None =
     [start_event, status_event 200, message_event (PStr (str ''A''))]\<close>
  by (simp add: session_forever aiter_lines_Cons_None aiter_lines_Nil_None loop_body_A gen_defs
        del: aiter_lines.simps)

subsection \<open>C10: an object without a response\<close>



end
